theory Spec2Isabelle
  imports Main "HOL-Library.Word" "HOL-Library.Char_ord" "HOL-Library.List_Lexorder"
    "HOL-Library.Multiset"
begin

section \<open>dorkbot: target store, fingerprints and blocklists\<close>

text \<open>
  A shallow embedding of \<^verbatim>\<open>src/dorkbot/dorkbot.py\<close>. Python strings are \<open>string\<close>
  (lists of bytes, read as UTF-8), exceptions and \<^verbatim>\<open>sys.exit\<close> are values of the type
  \<open>error\<close>, objects are records, and every function that can raise returns
  \<open>error + 'a\<close>. Library functions the program calls (\<^verbatim>\<open>urlparse\<close>, \<^verbatim>\<open>hashlib.md5\<close>,
  \<^verbatim>\<open>socket.gethostbyname\<close>, \<^verbatim>\<open>ipaddress.ip_network\<close>, \<^verbatim>\<open>re\<close>, \<^verbatim>\<open>random.shuffle\<close>) are the
  fields of a record \<open>libs\<close> that every function takes as its first argument.
\<close>

subsection \<open>Python string operations\<close>

text \<open>\<^verbatim>\<open>s.split(c)\<close> for a separator of one character: never the empty list.\<close>

fun split_on :: "char \<Rightarrow> string \<Rightarrow> string list" where
  "split_on c [] = [[]]"
| "split_on c (x # xs) =
     (if x = c then [] # split_on c xs
      else (x # hd (split_on c xs)) # tl (split_on c xs))"

text \<open>\<^verbatim>\<open>s.split(c, 1)\<close>: at most one split, at the first occurrence.\<close>

definition split1 :: "char \<Rightarrow> string \<Rightarrow> string list" where
  "split1 c s =
     (if c \<in> set s then [takeWhile (\<lambda>x. x \<noteq> c) s, tl (dropWhile (\<lambda>x. x \<noteq> c) s)]
      else [s])"

text \<open>\<^verbatim>\<open>sep.join(xs)\<close>.\<close>

fun join :: "string \<Rightarrow> string list \<Rightarrow> string" where
  "join sep [] = []"
| "join sep [x] = x"
| "join sep (x # y # ys) = x @ sep @ join sep (y # ys)"

text \<open>\<^verbatim>\<open>s.count(c)\<close> for one character.\<close>

definition count_char :: "char \<Rightarrow> string \<Rightarrow> nat" where
  "count_char c s = length (filter (\<lambda>x. x = c) s)"

text \<open>\<^verbatim>\<open>s.startswith(p)\<close>.\<close>

definition startswith :: "string \<Rightarrow> string \<Rightarrow> bool" where
  "startswith s p = (take (length p) s = p)"

text \<open>\<^verbatim>\<open>str(n)\<close> for a natural number.\<close>

definition digit_char :: "nat \<Rightarrow> char" where
  "digit_char d = char_of (of_char (CHR ''0'') + d)"

fun str_nat :: "nat \<Rightarrow> string" where
  "str_nat n = (if n < 10 then [digit_char n] else str_nat (n div 10) @ [digit_char (n mod 10)])"

declare str_nat.simps [simp del]

subsection \<open>Errors\<close>

text \<open>
  \<open>Exit msg\<close> is \<^verbatim>\<open>logging.error(msg, ...)\<close> followed by \<^verbatim>\<open>sys.exit(1)\<close>; the other
  constructors are Python exceptions that no handler of the program catches.
\<close>

datatype error =
    Exit string
  | ValueError
  | TypeError
  | UnboundLocalError string
  | AttributeError string
  | RegexError

subsection \<open>The libraries\<close>

text \<open>The part of \<^verbatim>\<open>urlparse(url)\<close> the program reads.\<close>

record url_parts =
  netloc :: string
  path :: string
  query :: string
  hostname :: "string option"

text \<open>What \<^verbatim>\<open>socket.gethostbyname\<close> does for a host name: an IPv4 address, the exception
  \<^verbatim>\<open>socket.gaierror\<close>, or any other exception.\<close>

datatype resolution = Resolved "32 word" | Gaierror | OtherException

text \<open>An \<^verbatim>\<open>ipaddress.IPv4Network\<close>: the network address and the prefix length.\<close>

datatype network = Network "32 word" nat

record libs =
  urlparse :: "string \<Rightarrow> url_parts option"
    \<comment> \<open>\<open>None\<close>: \<^verbatim>\<open>urlparse\<close> raises ValueError\<close>
  md5_hexdigest :: "string \<Rightarrow> string"
  gethostbyname :: "string \<Rightarrow> resolution"
  ip_network :: "string \<Rightarrow> network option"
    \<comment> \<open>\<open>None\<close>: \<^verbatim>\<open>ipaddress.ip_network\<close> raises ValueError\<close>
  re_compile :: "string \<Rightarrow> bool"
    \<comment> \<open>\<open>False\<close>: \<^verbatim>\<open>re.compile\<close> raises \<^verbatim>\<open>re.error\<close>\<close>
  re_match :: "string \<Rightarrow> string \<Rightarrow> bool"
    \<comment> \<open>\<^verbatim>\<open>re.compile(pattern).match(url)\<close> is not None\<close>
  shuffle :: "string list \<Rightarrow> string list"
    \<comment> \<open>the order \<^verbatim>\<open>random.shuffle\<close> or \<^verbatim>\<open>ORDER BY RANDOM()\<close> produces\<close>

subsection \<open>Targets and fingerprints\<close>

text \<open>
  A \<^verbatim>\<open>Target\<close> object. The attribute \<^verbatim>\<open>ip\<close> is \<open>IpUnset\<close> when the constructor never
  assigned it, \<open>IpNone\<close> when it holds \<^verbatim>\<open>None\<close>. The attributes \<^verbatim>\<open>hash\<close>, \<^verbatim>\<open>starttime\<close>
  and \<^verbatim>\<open>endtime\<close> are left out.
\<close>

datatype ip_attr = IpUnset | IpNone | Ip "32 word"

record target =
  url :: string
  host :: "string option"
  ip :: ip_attr

text \<open>
  \<^verbatim>\<open>Target.__init__\<close>. \<^verbatim>\<open>urlparse\<close> is outside the \<^verbatim>\<open>try\<close>. Inside it,
  \<^verbatim>\<open>socket.gaierror\<close> sets \<^verbatim>\<open>self.ip = None\<close>; any other exception (also the TypeError
  of \<^verbatim>\<open>gethostbyname(None)\<close>) is logged and leaves \<^verbatim>\<open>self.ip\<close> unassigned.
\<close>

definition Target :: "libs \<Rightarrow> string \<Rightarrow> error + target" where
  "Target L u =
     (case urlparse L u of
        None \<Rightarrow> Inl ValueError
      | Some url_parts \<Rightarrow>
          Inr \<lparr>url = u, host = hostname url_parts,
               ip = (case hostname url_parts of
                       None \<Rightarrow> IpUnset
                     | Some h \<Rightarrow>
                         (case gethostbyname L h of
                            Resolved a \<Rightarrow> Ip a
                          | Gaierror \<Rightarrow> IpNone
                          | OtherException \<Rightarrow> IpUnset))\<rparr>)"

definition generate_hash :: "libs \<Rightarrow> string \<Rightarrow> string" where
  "generate_hash L s = md5_hexdigest L s"

text \<open>The loop of \<^verbatim>\<open>generate_fingerprint\<close> over \<^verbatim>\<open>query.split("&")\<close>.\<close>

fun fingerprint_params :: "string list \<Rightarrow> string list" where
  "fingerprint_params [] = []"
| "fingerprint_params (param # rest) =
     (let split = split1 (CHR ''='') param in
      if length split = 2 \<and> split ! 1 \<noteq> [] then split ! 0 # fingerprint_params rest
      else fingerprint_params rest)"

text \<open>The string that is hashed.\<close>

definition fingerprint_string :: "url_parts \<Rightarrow> string" where
  "fingerprint_string url_parts =
     (let depth = str_nat (count_char (CHR ''/'') (path url_parts));
          page = last (split_on (CHR ''/'') (path url_parts));
          params = fingerprint_params (split_on (CHR ''&'') (query url_parts))
      in join ''|'' [netloc url_parts, depth, page, join '','' (sort params)])"

definition generate_fingerprint :: "libs \<Rightarrow> target \<Rightarrow> error + string" where
  "generate_fingerprint L t =
     (case urlparse L (url t) of
        None \<Rightarrow> Inl ValueError
      | Some url_parts \<Rightarrow> Inr (generate_hash L (fingerprint_string url_parts)))"

subsection \<open>The target database\<close>

text \<open>
  The tables \<^verbatim>\<open>targets(url PRIMARY KEY, source, scanned DEFAULT 0)\<close> and
  \<^verbatim>\<open>fingerprints(fingerprint PRIMARY KEY)\<close> are lists of rows in the order a \<^verbatim>\<open>SELECT\<close>
  without \<^verbatim>\<open>ORDER BY\<close> returns them. The column \<^verbatim>\<open>scanned\<close> only ever holds 0 or 1.
\<close>

record target_row =
  row_url :: string
  row_source :: "string option"
  row_scanned :: bool

text \<open>
  A \<^verbatim>\<open>module.Error\<close> raised by a call of the driver: \<open>ConnectionLost\<close> when its message
  contains "connection already closed" or "server closed the connection unexpectedly",
  \<open>OtherDbError\<close> otherwise.
\<close>

datatype db_error = ConnectionLost | OtherDbError

text \<open>
  A \<^verbatim>\<open>TargetDatabase\<close> object together with the tables it is connected to. \<open>faults\<close> is
  what the next calls of the driver (\<^verbatim>\<open>cursor.execute\<close>, \<^verbatim>\<open>executemany\<close>,
  \<^verbatim>\<open>module.connect\<close>) will do, one entry per call: \<open>None\<close> is success, and once the list
  is used up every call succeeds.
\<close>

record db =
  db_module :: string
  insert :: string
  conflict :: string
  targets :: "target_row list"
  fingerprints :: "string list"
  faults :: "db_error option list"

text \<open>
  \<^verbatim>\<open>TargetDatabase.__init__\<close>: the driver and its SQL dialect are chosen by the prefix of
  the database string. The stored tables and the driver's future behaviour are arguments.
\<close>

definition TargetDatabase ::
  "string \<Rightarrow> target_row list \<Rightarrow> string list \<Rightarrow> db_error option list \<Rightarrow> db" where
  "TargetDatabase database rows fps fl =
     (if startswith database ''postgresql://'' then
        \<lparr>db_module = ''psycopg2'', insert = ''INSERT'', conflict = ''ON CONFLICT DO NOTHING'',
         targets = rows, fingerprints = fps, faults = fl\<rparr>
      else if startswith database ''phoenixdb://'' then
        \<lparr>db_module = ''phoenixdb'', insert = ''UPSERT'', conflict = [],
         targets = rows, fingerprints = fps, faults = fl\<rparr>
      else
        \<lparr>db_module = ''sqlite3'', insert = ''INSERT OR REPLACE'', conflict = [],
         targets = rows, fingerprints = fps, faults = fl\<rparr>)"

text \<open>One call of the driver: the next entry of \<open>faults\<close>.\<close>

definition driver_call :: "db \<Rightarrow> db_error option \<times> db" where
  "driver_call s =
     (case faults s of [] \<Rightarrow> (None, s) | f # fs \<Rightarrow> (f, s\<lparr>faults := fs\<rparr>))"

text \<open>\<^verbatim>\<open>TargetDatabase.connect\<close>: any \<^verbatim>\<open>module.Error\<close> is fatal.\<close>

definition connect :: "db \<Rightarrow> error + db" where
  "connect s =
     (case driver_call s of
        (None, s') \<Rightarrow> Inr s'
      | (Some e, s') \<Rightarrow> Inl (Exit ''Error loading database''))"

text \<open>
  What the statement
  \<^verbatim>\<open>"%s INTO targets (url, source) VALUES (%s, %s) %s" % (insert, param, param, conflict)\<close>
  does to the table, by dialect:
  \<^item> SQLite's \<^verbatim>\<open>INSERT OR REPLACE\<close> deletes the row with the same key and inserts a new
    row, whose unnamed column \<^verbatim>\<open>scanned\<close> takes its default 0;
  \<^item> Phoenix's \<^verbatim>\<open>UPSERT\<close> writes the named columns of the row with that key and leaves
    the other columns of an existing row as they are;
  \<^item> PostgreSQL's \<^verbatim>\<open>INSERT ... ON CONFLICT DO NOTHING\<close> leaves an existing row as it is;
  \<^item> a plain \<^verbatim>\<open>INSERT\<close> of an existing key is an integrity error (\<open>None\<close>).
\<close>

definition sql_insert_target ::
  "string \<Rightarrow> string \<Rightarrow> string \<Rightarrow> string option \<Rightarrow> target_row list \<Rightarrow> target_row list option" where
  "sql_insert_target ins confl u src rows =
     (let new = \<lparr>row_url = u, row_source = src, row_scanned = False\<rparr> in
      if ins = ''INSERT OR REPLACE'' then
        Some (filter (\<lambda>r. row_url r \<noteq> u) rows @ [new])
      else if ins = ''UPSERT'' then
        Some (if u \<in> set (map row_url rows)
              then map (\<lambda>r. if row_url r = u then r\<lparr>row_source := src\<rparr> else r) rows
              else rows @ [new])
      else if u \<in> set (map row_url rows) then
        (if confl = ''ON CONFLICT DO NOTHING'' then Some rows else None)
      else Some (rows @ [new]))"

text \<open>\<^verbatim>\<open>"%s INTO fingerprints VALUES (%s)" % (insert, param)\<close>: no conflict clause.\<close>

definition sql_insert_fingerprint :: "string \<Rightarrow> string \<Rightarrow> string list \<Rightarrow> string list option" where
  "sql_insert_fingerprint ins fp fps =
     (if fp \<in> set fps then
        (if ins = ''INSERT OR REPLACE'' \<or> ins = ''UPSERT'' then Some fps else None)
      else Some (fps @ [fp]))"

text \<open>\<^verbatim>\<open>UPDATE targets SET scanned = 1 WHERE url = ?\<close>.\<close>

definition sql_mark_scanned :: "string \<Rightarrow> target_row list \<Rightarrow> target_row list" where
  "sql_mark_scanned u rows = map (\<lambda>r. if row_url r = u then r\<lparr>row_scanned := True\<rparr> else r) rows"

text \<open>\<^verbatim>\<open>DELETE FROM targets WHERE url = ?\<close>.\<close>

definition sql_delete_target :: "string \<Rightarrow> target_row list \<Rightarrow> target_row list" where
  "sql_delete_target u rows = filter (\<lambda>r. row_url r \<noteq> u) rows"

text \<open>\<^verbatim>\<open>UPDATE targets SET scanned = 0\<close>.\<close>

definition sql_reset_scanned :: "target_row list \<Rightarrow> target_row list" where
  "sql_reset_scanned rows = map (\<lambda>r. r\<lparr>row_scanned := False\<rparr>) rows"

text \<open>\<^verbatim>\<open>TargetDatabase.add_target\<close>.\<close>

definition add_target :: "string \<Rightarrow> string option \<Rightarrow> db \<Rightarrow> error + db" where
  "add_target u src s =
     (case driver_call s of
        (Some e, s') \<Rightarrow> Inl (Exit ''Failed to add target'')
      | (None, s') \<Rightarrow>
          (case sql_insert_target (insert s') (conflict s') u src (targets s') of
             None \<Rightarrow> Inl (Exit ''Failed to add target'')
           | Some rows \<Rightarrow> Inr (s'\<lparr>targets := rows\<rparr>)))"

text \<open>\<^verbatim>\<open>executemany\<close>: the statement once for each url, in order.\<close>

fun insert_targets ::
  "string \<Rightarrow> string \<Rightarrow> string list \<Rightarrow> string option \<Rightarrow> target_row list \<Rightarrow> target_row list option" where
  "insert_targets ins confl [] src rows = Some rows"
| "insert_targets ins confl (u # us) src rows =
     (case sql_insert_target ins confl u src rows of
        None \<Rightarrow> None
      | Some rows' \<Rightarrow> insert_targets ins confl us src rows')"

text \<open>\<^verbatim>\<open>TargetDatabase.add_targets\<close>.\<close>

definition add_targets :: "string list \<Rightarrow> string option \<Rightarrow> db \<Rightarrow> error + db" where
  "add_targets us src s =
     (case driver_call s of
        (Some e, s') \<Rightarrow> Inl (Exit ''Failed to add target'')
      | (None, s') \<Rightarrow>
          (case insert_targets (insert s') (conflict s') us src (targets s') of
             None \<Rightarrow> Inl (Exit ''Failed to add target'')
           | Some rows \<Rightarrow> Inr (s'\<lparr>targets := rows\<rparr>)))"

text \<open>\<^verbatim>\<open>TargetDatabase.delete_target\<close>.\<close>

definition delete_target :: "string \<Rightarrow> db \<Rightarrow> error + db" where
  "delete_target u s =
     (case driver_call s of
        (Some e, s') \<Rightarrow> Inl (Exit ''Failed to delete target'')
      | (None, s') \<Rightarrow> Inr (s'\<lparr>targets := sql_delete_target u (targets s')\<rparr>))"

text \<open>\<^verbatim>\<open>TargetDatabase.flush_fingerprints\<close>: two statements in one \<^verbatim>\<open>try\<close>.\<close>

definition flush_fingerprints :: "db \<Rightarrow> error + db" where
  "flush_fingerprints s =
     (case driver_call s of
        (Some e, s1) \<Rightarrow> Inl (Exit ''Failed to flush fingerprints'')
      | (None, s1) \<Rightarrow>
          (case driver_call (s1\<lparr>fingerprints := []\<rparr>) of
             (Some e, s2) \<Rightarrow> Inl (Exit ''Failed to flush fingerprints'')
           | (None, s2) \<Rightarrow> Inr (s2\<lparr>targets := sql_reset_scanned (targets s2)\<rparr>)))"

text \<open>\<^verbatim>\<open>TargetDatabase.flush_targets\<close>.\<close>

definition flush_targets :: "db \<Rightarrow> error + db" where
  "flush_targets s =
     (case driver_call s of
        (Some e, s') \<Rightarrow> Inl (Exit ''Failed to flush targets'')
      | (None, s') \<Rightarrow> Inr (s'\<lparr>targets := []\<rparr>))"

text \<open>
  The argument \<^verbatim>\<open>source\<close> of \<^verbatim>\<open>get_urls\<close>: \<^verbatim>\<open>False\<close> or \<^verbatim>\<open>True\<close> (the bare flag
  \<^verbatim>\<open>--source\<close>), or a label.
\<close>

datatype source_arg = SourceFlag bool | SourceLabel string

text \<open>\<^verbatim>\<open>" | ".join(row)\<close> for a fetched row: a TypeError when a column is \<^verbatim>\<open>None\<close>.\<close>

definition join_row :: "string option list \<Rightarrow> error + string" where
  "join_row cols = (if None \<in> set cols then Inl TypeError else Inr (join '' | '' (map the cols)))"

fun join_rows :: "string option list list \<Rightarrow> error + string list" where
  "join_rows [] = Inr []"
| "join_rows (r # rs) =
     (case join_row r of
        Inl e \<Rightarrow> Inl e
      | Inr x \<Rightarrow> (case join_rows rs of Inl e \<Rightarrow> Inl e | Inr xs \<Rightarrow> Inr (x # xs)))"

text \<open>
  \<^verbatim>\<open>TargetDatabase.get_urls\<close>. The label filter applies when \<^verbatim>\<open>source\<close> is truthy and
  not \<^verbatim>\<open>True\<close>, that is, a non-empty string.
\<close>

definition get_urls :: "libs \<Rightarrow> bool \<Rightarrow> source_arg \<Rightarrow> bool \<Rightarrow> db \<Rightarrow> error + (string list \<times> db)" where
  "get_urls L unscanned_only source randomize s =
     (let where_scanned = (\<lambda>r. if unscanned_only then \<not> row_scanned r else True);
          where_source = (\<lambda>r. case source of
                                SourceLabel l \<Rightarrow> l = [] \<or> row_source r = Some l
                              | SourceFlag b \<Rightarrow> True);
          fields = (\<lambda>r. if source = SourceFlag True then [Some (row_url r), row_source r]
                         else [Some (row_url r)])
      in case driver_call s of
           (Some e, s') \<Rightarrow> Inl (Exit ''Failed to get targets'')
         | (None, s') \<Rightarrow>
             (case join_rows (map fields (filter (\<lambda>r. where_scanned r \<and> where_source r) (targets s'))) of
                Inl e \<Rightarrow> Inl e
              | Inr urls \<Rightarrow> Inr (if randomize then shuffle L urls else urls, s')))"

subsection \<open>Cursors, the fingerprint lookup and the scanned flag\<close>

text \<open>
  A DB-API cursor holds the rows of the last statement executed on it that have not been
  fetched yet (all rows here have one column). \<^verbatim>\<open>cursor.execute\<close> replaces them, also when
  the cursor still had rows of an earlier \<^verbatim>\<open>SELECT\<close>; \<^verbatim>\<open>fetchone\<close> takes the first, and
  returns \<^verbatim>\<open>None\<close> when there is none. An \<^verbatim>\<open>execute\<close> that raises leaves the rows as they
  were.
\<close>

type_synonym cursor = "string list"

text \<open>
  \<^verbatim>\<open>TargetDatabase.get_scanned\<close>: the loop \<^verbatim>\<open>for i in range(3)\<close>, with the number of
  iterations left. A lost connection reconnects and goes on with the next iteration; when
  no iteration is left, \<^verbatim>\<open>row\<close> was never assigned and \<^verbatim>\<open>if row:\<close> raises. The lookup is
  by primary key: one row or none. The result is \<^verbatim>\<open>row[0]\<close> (\<open>Some\<close>) or \<^verbatim>\<open>False\<close> (\<open>None\<close>).
\<close>

fun get_scanned_loop :: "nat \<Rightarrow> string \<Rightarrow> cursor \<times> db \<Rightarrow> error + (string option \<times> cursor \<times> db)" where
  "get_scanned_loop 0 fp (c, s) = Inl (UnboundLocalError ''row'')"
| "get_scanned_loop (Suc n) fp (c, s) =
     (case driver_call s of
        (None, s') \<Rightarrow>
          (if fp \<in> set (fingerprints s') then Inr (Some fp, [], s') else Inr (None, [], s'))
      | (Some ConnectionLost, s') \<Rightarrow>
          (case connect s' of
             Inl e \<Rightarrow> Inl e
           | Inr s'' \<Rightarrow> get_scanned_loop n fp (c, s''))
      | (Some OtherDbError, s') \<Rightarrow> Inl (Exit ''Failed to look up fingerprint''))"

definition get_scanned :: "string \<Rightarrow> cursor \<times> db \<Rightarrow> error + (string option \<times> cursor \<times> db)" where
  "get_scanned fp cs = get_scanned_loop 3 fp cs"

text \<open>The truth value Python gives the result of \<^verbatim>\<open>get_scanned\<close>.\<close>

fun truthy :: "string option \<Rightarrow> bool" where
  "truthy None = False"
| "truthy (Some x) = (x \<noteq> [])"

text \<open>
  \<^verbatim>\<open>TargetDatabase.mark_scanned\<close>: the loop \<^verbatim>\<open>for i in range(3)\<close> has no \<^verbatim>\<open>break\<close>, so a
  successful \<^verbatim>\<open>UPDATE\<close> is followed by the next iteration, and the function returns when
  no iteration is left.
\<close>

fun mark_scanned_loop :: "nat \<Rightarrow> string \<Rightarrow> cursor \<times> db \<Rightarrow> error + (cursor \<times> db)" where
  "mark_scanned_loop 0 u (c, s) = Inr (c, s)"
| "mark_scanned_loop (Suc n) u (c, s) =
     (case driver_call s of
        (None, s') \<Rightarrow>
          mark_scanned_loop n u ([], s'\<lparr>targets := sql_mark_scanned u (targets s')\<rparr>)
      | (Some ConnectionLost, s') \<Rightarrow>
          (case connect s' of
             Inl e \<Rightarrow> Inl e
           | Inr s'' \<Rightarrow> mark_scanned_loop n u (c, s''))
      | (Some OtherDbError, s') \<Rightarrow> Inl (Exit ''Failed to mark target as scanned''))"

definition mark_scanned :: "string \<Rightarrow> cursor \<times> db \<Rightarrow> error + (cursor \<times> db)" where
  "mark_scanned u cs = mark_scanned_loop 3 u cs"

lemma get_scanned_loop_cursor:
  "get_scanned_loop n fp (c, s) = Inr (r, c', s') \<Longrightarrow> c' = []"
proof (induction n arbitrary: s)
  case 0
  then show ?case by simp
next
  case (Suc n)
  then show ?case
    by (auto split: prod.splits option.splits db_error.splits sum.splits if_splits)
qed

lemma get_scanned_cursor: "get_scanned fp cs = Inr (r, c', s') \<Longrightarrow> c' = []"
  unfolding get_scanned_def by (cases cs) (auto dest: get_scanned_loop_cursor)

text \<open>
  The loop \<^verbatim>\<open>while True\<close> of \<^verbatim>\<open>TargetDatabase.get_next_target\<close>, on the cursor \<^verbatim>\<open>c\<close>
  and the database. \<^verbatim>\<open>mark_scanned\<close> and \<^verbatim>\<open>get_scanned\<close> execute their statements on the
  same cursor \<^verbatim>\<open>c\<close> that holds the unscanned urls, and the \<^verbatim>\<open>fetchone\<close> after
  \<^verbatim>\<open>continue\<close> reads what they left on it.
\<close>

function get_next_target_loop :: "libs \<Rightarrow> cursor \<times> db \<Rightarrow> error + (target option \<times> db)" where
  "get_next_target_loop L (c, s) =
     (case c of
        [] \<Rightarrow> Inr (None, s)
      | u # rest \<Rightarrow>
          (case Target L u of
             Inl e \<Rightarrow> Inl e
           | Inr t \<Rightarrow>
               (case generate_fingerprint L t of
                  Inl e \<Rightarrow> Inl e
                | Inr fp \<Rightarrow>
                    (case mark_scanned u (rest, s) of
                       Inl e \<Rightarrow> Inl e
                     | Inr cs1 \<Rightarrow>
                         (case get_scanned fp cs1 of
                            Inl e \<Rightarrow> Inl e
                          | Inr (r, c2, s2) \<Rightarrow>
                              if truthy r then get_next_target_loop L (c2, s2)
                              else
                                (case driver_call s2 of
                                   (Some e, s3) \<Rightarrow> Inl (Exit ''Failed to get next target'')
                                 | (None, s3) \<Rightarrow>
                                     (case sql_insert_fingerprint (insert s3) fp (fingerprints s3) of
                                        None \<Rightarrow> Inl (Exit ''Failed to get next target'')
                                      | Some fps \<Rightarrow> Inr (Some t, s3\<lparr>fingerprints := fps\<rparr>))))))))"
  by pat_completeness auto
termination
  by (relation "measure (\<lambda>(L, c, s). length c)") (auto dest: get_scanned_cursor)

declare get_next_target_loop.simps [simp del]

text \<open>
  \<^verbatim>\<open>TargetDatabase.get_next_target\<close>: \<^verbatim>\<open>SELECT url FROM targets WHERE scanned != 1\<close>,
  in random order when asked, then the loop.
\<close>

definition get_next_target :: "libs \<Rightarrow> bool \<Rightarrow> db \<Rightarrow> error + (target option \<times> db)" where
  "get_next_target L random s =
     (case driver_call s of
        (Some e, s') \<Rightarrow> Inl (Exit ''Failed to get next target'')
      | (None, s') \<Rightarrow>
          (let urls = map row_url (filter (\<lambda>r. \<not> row_scanned r) (targets s'))
           in get_next_target_loop L (if random then shuffle L urls else urls, s')))"

subsection \<open>Blocklists\<close>

unbundle bit_operations_syntax

text \<open>\<^verbatim>\<open>ip in ip_net\<close> for an IPv4 address and network: the address under the netmask is
  the network address.\<close>

fun net_contains :: "network \<Rightarrow> 32 word \<Rightarrow> bool" where
  "net_contains (Network base plen) a = (a AND NOT (mask (32 - plen)) = base)"

text \<open>
  A \<^verbatim>\<open>Blocklist\<close> object. The three sets are lists without duplicates; \<open>regex\<close> is the
  pattern compiled into \<^verbatim>\<open>self.regex\<close>, or \<open>None\<close>. \<open>database\<close> tells whether a database
  backs the list (otherwise a file does), \<open>items\<close> are the stored items, \<open>bl_faults\<close> is
  what the next calls of the driver, or of \<^verbatim>\<open>open\<close>, will do, and \<open>log\<close> holds the
  messages logged as warnings or errors.
\<close>

record blocklist =
  ip_set :: "network list"
  host_set :: "string list"
  regex_set :: "string list"
  regex :: "string option"
  database :: bool
  bl_insert :: string
  items :: "string list"
  bl_faults :: "db_error option list"
  log :: "string list"

text \<open>The loop \<^verbatim>\<open>for ip_net in self.ip_set\<close> of \<^verbatim>\<open>Blocklist.match\<close>: each iteration reads
  \<^verbatim>\<open>target.ip\<close>, which raises when the attribute was never assigned.\<close>

fun match_ip_set :: "network list \<Rightarrow> ip_attr \<Rightarrow> error + bool" where
  "match_ip_set [] i = Inr False"
| "match_ip_set (ip_net # rest) i =
     (case i of
        IpUnset \<Rightarrow> Inl (AttributeError ''ip'')
      | IpNone \<Rightarrow> match_ip_set rest i
      | Ip a \<Rightarrow> if net_contains ip_net a then Inr True else match_ip_set rest i)"

text \<open>\<^verbatim>\<open>Blocklist.match\<close>.\<close>

definition match :: "libs \<Rightarrow> blocklist \<Rightarrow> target \<Rightarrow> error + bool" where
  "match L bl t =
     (if (case regex bl of None \<Rightarrow> False | Some p \<Rightarrow> re_match L p (url t)) then Inr True
      else if (case host t of None \<Rightarrow> False | Some h \<Rightarrow> h \<in> set (host_set bl)) then Inr True
      else match_ip_set (ip_set bl) (ip t))"

text \<open>\<^verbatim>\<open>True in [blocklist.match(target) for blocklist in blocklists]\<close>: every blocklist is
  asked, in order, before the list is searched.\<close>

fun match_all :: "libs \<Rightarrow> blocklist list \<Rightarrow> target \<Rightarrow> error + bool list" where
  "match_all L [] t = Inr []"
| "match_all L (bl # bls) t =
     (case match L bl t of
        Inl e \<Rightarrow> Inl e
      | Inr b \<Rightarrow> (case match_all L bls t of Inl e \<Rightarrow> Inl e | Inr bs \<Rightarrow> Inr (b # bs)))"

definition match_any :: "libs \<Rightarrow> blocklist list \<Rightarrow> target \<Rightarrow> error + bool" where
  "match_any L bls t = (case match_all L bls t of Inl e \<Rightarrow> Inl e | Inr bs \<Rightarrow> Inr (True \<in> set bs))"

text \<open>
  The loop of \<^verbatim>\<open>Blocklist.parse_list\<close>, with the local variable \<^verbatim>\<open>ip_net\<close> (\<open>None\<close> while
  it is unassigned). After a ValueError of \<^verbatim>\<open>ip_network\<close> the handler logs and the
  function goes on to \<^verbatim>\<open>self.ip_set.add(ip_net)\<close>.
\<close>

fun parse_items :: "libs \<Rightarrow> string list \<Rightarrow> network option \<Rightarrow> blocklist \<Rightarrow> error + blocklist" where
  "parse_items L [] ip_net bl = Inr bl"
| "parse_items L (item # rest) ip_net bl =
     (if startswith item ''ip:'' then
        (case ip_network L (split_on (CHR '':'') item ! 1) of
           Some n \<Rightarrow> parse_items L rest (Some n) (bl\<lparr>ip_set := List.insert n (ip_set bl)\<rparr>)
         | None \<Rightarrow>
             (case ip_net of
                None \<Rightarrow> Inl (UnboundLocalError ''ip_net'')
              | Some n \<Rightarrow>
                  parse_items L rest ip_net
                    (bl\<lparr>ip_set := List.insert n (ip_set bl),
                        log := log bl @ [''Could not parse blocklist item as ip'']\<rparr>)))
      else if startswith item ''host:'' then
        parse_items L rest ip_net
          (bl\<lparr>host_set := List.insert (split_on (CHR '':'') item ! 1) (host_set bl)\<rparr>)
      else if startswith item ''regex:'' then
        parse_items L rest ip_net
          (bl\<lparr>regex_set := List.insert (split_on (CHR '':'') item ! 1) (regex_set bl)\<rparr>)
      else
        parse_items L rest ip_net (bl\<lparr>log := log bl @ [''Could not parse blocklist item'']\<rparr>))"

text \<open>\<^verbatim>\<open>Blocklist.parse_list\<close>: the loop, then the pattern is compiled.\<close>

definition parse_list :: "libs \<Rightarrow> string list \<Rightarrow> blocklist \<Rightarrow> error + blocklist" where
  "parse_list L its bl =
     (case parse_items L its None bl of
        Inl e \<Rightarrow> Inl e
      | Inr bl' \<Rightarrow>
          (let pattern = join ''|'' (regex_set bl') in
           if pattern \<noteq> [] then
             (if re_compile L pattern then Inr (bl'\<lparr>regex := Some pattern\<rparr>) else Inl RegexError)
           else Inr (bl'\<lparr>regex := None\<rparr>)))"

text \<open>One call of the blocklist's driver, or of \<^verbatim>\<open>open\<close>.\<close>

definition bl_call :: "blocklist \<Rightarrow> db_error option \<times> blocklist" where
  "bl_call bl =
     (case bl_faults bl of [] \<Rightarrow> (None, bl) | f # fs \<Rightarrow> (f, bl\<lparr>bl_faults := fs\<rparr>))"

text \<open>\<^verbatim>\<open>Blocklist.connect\<close>.\<close>

definition bl_connect :: "blocklist \<Rightarrow> error + blocklist" where
  "bl_connect bl =
     (case bl_call bl of
        (None, bl') \<Rightarrow> Inr bl'
      | (Some e, bl') \<Rightarrow>
          Inl (Exit (if database bl then ''Error loading database''
                     else ''Failed to read blocklist file'')))"

text \<open>
  \<^verbatim>\<open>Blocklist.add\<close>: connect, parse the item (every parse failure is logged and exits),
  then store it when a database backs the list. \<^verbatim>\<open>self.regex\<close> is not compiled again.
\<close>

definition add :: "libs \<Rightarrow> string \<Rightarrow> blocklist \<Rightarrow> error + blocklist" where
  "add L item bl0 =
     (case bl_connect bl0 of
        Inl e \<Rightarrow> Inl e
      | Inr bl \<Rightarrow>
          (case
             (if startswith item ''ip:'' then
                (case ip_network L (split_on (CHR '':'') item ! 1) of
                   None \<Rightarrow> Inl (Exit ''Could not parse blocklist item as ip'')
                 | Some n \<Rightarrow> Inr (bl\<lparr>ip_set := List.insert n (ip_set bl)\<rparr>))
              else if startswith item ''host:'' then
                Inr (bl\<lparr>host_set := List.insert (split_on (CHR '':'') item ! 1) (host_set bl)\<rparr>)
              else if startswith item ''regex:'' then
                Inr (bl\<lparr>regex_set := List.insert (split_on (CHR '':'') item ! 1) (regex_set bl)\<rparr>)
              else Inl (Exit ''Could not parse blocklist item''))
           of
             Inl e \<Rightarrow> Inl e
           | Inr bl1 \<Rightarrow>
               if database bl1 then
                 (case bl_call bl1 of
                    (Some e, bl2) \<Rightarrow> Inl (Exit ''Failed to add blocklist item'')
                  | (None, bl2) \<Rightarrow>
                      (case sql_insert_fingerprint (bl_insert bl2) item (items bl2) of
                         None \<Rightarrow> Inl (Exit ''Failed to add blocklist item'')
                       | Some its \<Rightarrow> Inr (bl2\<lparr>items := its\<rparr>)))
               else
                 Inr (bl1\<lparr>log := log bl1 @ [''Add ignored (not implemented for file-based blocklist)'']\<rparr>)))"

subsection \<open>Pruning\<close>

text \<open>
  The loop of \<^verbatim>\<open>TargetDatabase.prune\<close> over the urls, with the local set
  \<^verbatim>\<open>fingerprints\<close> (here \<open>seen\<close>). Each iteration opens a cursor of its own. In
  \<^verbatim>\<open>fingerprint in fingerprints or self.get_scanned(fingerprint, c)\<close> the lookup runs only
  when the fingerprint was not seen in this pass.
\<close>

fun prune_loop :: "libs \<Rightarrow> blocklist list \<Rightarrow> string list \<Rightarrow> string set \<Rightarrow> db \<Rightarrow> error + db" where
  "prune_loop L blocklists [] seen s = Inr s"
| "prune_loop L blocklists (u # us) seen s =
     (case Target L u of
        Inl e \<Rightarrow> Inl e
      | Inr t \<Rightarrow>
          (case generate_fingerprint L t of
             Inl e \<Rightarrow> Inl e
           | Inr fp \<Rightarrow>
               (case (if fp \<in> seen then Inr (True, [], s)
                      else (case get_scanned fp ([], s) of
                              Inl e \<Rightarrow> Inl e
                            | Inr (r, c, s') \<Rightarrow> Inr (truthy r, c, s'))) of
                  Inl e \<Rightarrow> Inl e
                | Inr (dup, c, s1) \<Rightarrow>
                    if dup then
                      (case mark_scanned u (c, s1) of
                         Inl e \<Rightarrow> Inl e
                       | Inr (c', s2) \<Rightarrow> prune_loop L blocklists us seen s2)
                    else
                      (case match_any L blocklists t of
                         Inl e \<Rightarrow> Inl e
                       | Inr blocked \<Rightarrow>
                           if blocked then
                             (case delete_target u s1 of
                                Inl e \<Rightarrow> Inl e
                              | Inr s2 \<Rightarrow> prune_loop L blocklists us seen s2)
                           else prune_loop L blocklists us (Set.insert fp seen) s1))))"

text \<open>\<^verbatim>\<open>TargetDatabase.prune\<close>: \<^verbatim>\<open>get_urls()\<close> with its defaults, a shuffle when asked,
  then the loop.\<close>

definition prune :: "libs \<Rightarrow> blocklist list \<Rightarrow> bool \<Rightarrow> db \<Rightarrow> error + db" where
  "prune L blocklists randomize s =
     (case get_urls L False (SourceFlag False) False s of
        Inl e \<Rightarrow> Inl e
      | Inr (urls, s') \<Rightarrow>
          prune_loop L blocklists (if randomize then shuffle L urls else urls) {} s')"

subsection \<open>A model of the libraries\<close>

text \<open>
  The theorems below that hold for every behaviour of the libraries are stated for an
  arbitrary \<open>L\<close>. The concrete runs need a concrete one: \<open>python_libs\<close>, built from the
  models of this section.
\<close>

subsubsection \<open>MD5 (RFC 1321)\<close>

definition md5_shifts :: "nat list" where
  "md5_shifts =
     [7, 12, 17, 22, 7, 12, 17, 22, 7, 12, 17, 22, 7, 12, 17, 22,
      5, 9, 14, 20, 5, 9, 14, 20, 5, 9, 14, 20, 5, 9, 14, 20,
      4, 11, 16, 23, 4, 11, 16, 23, 4, 11, 16, 23, 4, 11, 16, 23,
      6, 10, 15, 21, 6, 10, 15, 21, 6, 10, 15, 21, 6, 10, 15, 21]"

definition md5_sines :: "32 word list" where
  "md5_sines =
     [0xd76aa478, 0xe8c7b756, 0x242070db, 0xc1bdceee, 0xf57c0faf, 0x4787c62a, 0xa8304613, 0xfd469501,
      0x698098d8, 0x8b44f7af, 0xffff5bb1, 0x895cd7be, 0x6b901122, 0xfd987193, 0xa679438e, 0x49b40821,
      0xf61e2562, 0xc040b340, 0x265e5a51, 0xe9b6c7aa, 0xd62f105d, 0x02441453, 0xd8a1e681, 0xe7d3fbc8,
      0x21e1cde6, 0xc33707d6, 0xf4d50d87, 0x455a14ed, 0xa9e3e905, 0xfcefa3f8, 0x676f02d9, 0x8d2a4c8a,
      0xfffa3942, 0x8771f681, 0x6d9d6122, 0xfde5380c, 0xa4beea44, 0x4bdecfa9, 0xf6bb4b60, 0xbebfbc70,
      0x289b7ec6, 0xeaa127fa, 0xd4ef3085, 0x04881d05, 0xd9d4d039, 0xe6db99e5, 0x1fa27cf8, 0xc4ac5665,
      0xf4292244, 0x432aff97, 0xab9423a7, 0xfc93a039, 0x655b59c3, 0x8f0ccc92, 0xffeff47d, 0x85845dd1,
      0x6fa87e4f, 0xfe2ce6e0, 0xa3014314, 0x4e0811a1, 0xf7537e82, 0xbd3af235, 0x2ad7d2bb, 0xeb86d391]"

text \<open>The \<open>n\<close> low bytes of a number, least significant first.\<close>

definition le_bytes :: "nat \<Rightarrow> nat \<Rightarrow> nat list" where
  "le_bytes n v = map (\<lambda>i. v div 256 ^ i mod 256) [0..<n]"

text \<open>The message, the byte 0x80, zeros up to 56 modulo 64, and the length in bits.\<close>

definition md5_pad :: "nat list \<Rightarrow> nat list" where
  "md5_pad msg =
     msg @ [128] @ replicate ((119 - length msg mod 64) mod 64) 0 @ le_bytes 8 (8 * length msg)"

text \<open>The sixteen little-endian words of a block of 64 bytes.\<close>

definition md5_words :: "nat list \<Rightarrow> 32 word list" where
  "md5_words block =
     map (\<lambda>j. of_nat (block ! (4 * j) + 256 * block ! (4 * j + 1)
                       + 65536 * block ! (4 * j + 2) + 16777216 * block ! (4 * j + 3)))
       [0..<16]"

type_synonym md5_state = "32 word \<times> 32 word \<times> 32 word \<times> 32 word"

definition md5_step :: "32 word list \<Rightarrow> nat \<Rightarrow> md5_state \<Rightarrow> md5_state" where
  "md5_step M i st =
     (case st of (a, b, c, d) \<Rightarrow>
        (let fg = (if i < 16 then ((b AND c) OR (NOT b AND d), i)
                   else if i < 32 then ((d AND b) OR (NOT d AND c), (5 * i + 1) mod 16)
                   else if i < 48 then (b XOR c XOR d, (3 * i + 5) mod 16)
                   else (c XOR (b OR NOT d), (7 * i) mod 16));
             f = fst fg + a + md5_sines ! i + M ! snd fg
         in (d, b + word_rotl (md5_shifts ! i) f, b, c)))"

definition md5_block :: "md5_state \<Rightarrow> nat list \<Rightarrow> md5_state" where
  "md5_block st block =
     (case st of (a0, b0, c0, d0) \<Rightarrow>
        (case fold (md5_step (md5_words block)) [0..<64] st of
           (a, b, c, d) \<Rightarrow> (a0 + a, b0 + b, c0 + c, d0 + d)))"

text \<open>The blocks of a padded message, with the number of blocks.\<close>

fun md5_blocks :: "nat \<Rightarrow> md5_state \<Rightarrow> nat list \<Rightarrow> md5_state" where
  "md5_blocks 0 st bytes = st"
| "md5_blocks (Suc n) st bytes = md5_blocks n (md5_block st (take 64 bytes)) (drop 64 bytes)"

definition hex_digit :: "nat \<Rightarrow> char" where
  "hex_digit d = (if d < 10 then char_of (48 + d) else char_of (87 + d))"

definition hex_byte :: "nat \<Rightarrow> string" where
  "hex_byte b = [hex_digit (b div 16 mod 16), hex_digit (b mod 16)]"

text \<open>\<^verbatim>\<open>hashlib.md5(s.encode("utf-8")).hexdigest()\<close>, the string being its UTF-8 bytes.\<close>

definition md5_hex :: "string \<Rightarrow> string" where
  "md5_hex s =
     (let bytes = md5_pad (map of_char s) in
      case md5_blocks (length bytes div 64) (0x67452301, 0xefcdab89, 0x98badcfe, 0x10325476) bytes of
        (a, b, c, d) \<Rightarrow> concat (map hex_byte (concat (map (\<lambda>w. le_bytes 4 (unat w)) [a, b, c, d]))))"

lemma length_hex_bytes: "length (concat (map hex_byte bs)) = 2 * length bs"
  by (induction bs) (simp_all add: hex_byte_def)

lemma length_le_bytes: "length (le_bytes n v) = n"
  by (simp add: le_bytes_def)

lemma md5_hex_length: "length (md5_hex s) = 32"
  by (simp add: md5_hex_def Let_def length_hex_bytes length_le_bytes split: prod.splits)

lemma md5_hex_not_empty: "md5_hex s \<noteq> []"
  using md5_hex_length [of s] by auto

subsubsection \<open>urlparse\<close>

text \<open>
  \<^verbatim>\<open>urllib.parse.urlparse\<close> for a url without whitespace and control characters and
  with an ASCII network location: the scheme, the network location after \<^verbatim>\<open>//\<close>, the
  fragment, the query, and the parameters of the last path segment are split off in this
  order. Unbalanced brackets in the network location are a ValueError.
\<close>

definition is_alpha :: "char \<Rightarrow> bool" where
  "is_alpha c = ((CHR ''a'' \<le> c \<and> c \<le> CHR ''z'') \<or> (CHR ''A'' \<le> c \<and> c \<le> CHR ''Z''))"

definition is_digit :: "char \<Rightarrow> bool" where
  "is_digit c = (CHR ''0'' \<le> c \<and> c \<le> CHR ''9'')"

definition scheme_char :: "char \<Rightarrow> bool" where
  "scheme_char c = (is_alpha c \<or> is_digit c \<or> c \<in> set ''+-.'')"

definition lower_char :: "char \<Rightarrow> char" where
  "lower_char c = (if CHR ''A'' \<le> c \<and> c \<le> CHR ''Z'' then char_of (of_char c + (32::nat)) else c)"

text \<open>\<^verbatim>\<open>s.partition(c)\<close>: before, whether the separator was found, after.\<close>

definition partition_on :: "char \<Rightarrow> string \<Rightarrow> string \<times> bool \<times> string" where
  "partition_on c s =
     (takeWhile (\<lambda>x. x \<noteq> c) s, c \<in> set s, drop 1 (dropWhile (\<lambda>x. x \<noteq> c) s))"

text \<open>The last component of \<^verbatim>\<open>s.rpartition(c)\<close>.\<close>

definition after_last :: "char \<Rightarrow> string \<Rightarrow> string" where
  "after_last c s = rev (takeWhile (\<lambda>x. x \<noteq> c) (rev s))"

definition uses_params :: "string list" where
  "uses_params = ['''', ''ftp'', ''hdl'', ''prospero'', ''http'', ''imap'', ''https'', ''shttp'',
     ''rtsp'', ''rtspu'', ''sip'', ''sips'', ''mms'', ''sftp'', ''tel'']"

text \<open>The first component of \<^verbatim>\<open>_splitparams\<close>.\<close>

definition strip_params :: "string \<Rightarrow> string" where
  "strip_params p =
     (if CHR ''/'' \<in> set p then
        (let k = length p - length (after_last (CHR ''/'') p) - 1
         in take k p @ takeWhile (\<lambda>x. x \<noteq> CHR '';'') (drop k p))
      else takeWhile (\<lambda>x. x \<noteq> CHR '';'') p)"

text \<open>The property \<^verbatim>\<open>hostname\<close> of the parse result.\<close>

definition hostname_of :: "string \<Rightarrow> string option" where
  "hostname_of nl =
     (let hostinfo = after_last (CHR ''@'') nl;
          br = partition_on (CHR ''['') hostinfo;
          h = (if fst (snd br) then fst (partition_on (CHR '']'') (snd (snd br)))
               else fst (partition_on (CHR '':'') hostinfo))
      in if h = [] then None
         else (let z = partition_on (CHR ''%'') h
               in Some (map lower_char (fst z) @ (if fst (snd z) then ''%'' else []) @ snd (snd z))))"

definition python_urlparse :: "string \<Rightarrow> url_parts option" where
  "python_urlparse u =
     (let i = length (takeWhile (\<lambda>x. x \<noteq> CHR '':'') u);
          has_scheme = (CHR '':'' \<in> set u \<and> 0 < i \<and> is_alpha (hd u) \<and> list_all scheme_char (take i u));
          scheme = (if has_scheme then map lower_char (take i u) else []);
          url1 = (if has_scheme then drop (i + 1) u else u);
          has_netloc = (take 2 url1 = ''//'');
          nl = (if has_netloc then takeWhile (\<lambda>x. x \<notin> set ''/?#'') (drop 2 url1) else []);
          url2 = (if has_netloc then dropWhile (\<lambda>x. x \<notin> set ''/?#'') (drop 2 url1) else url1);
          url3 = fst (partition_on (CHR ''#'') url2);
          url4 = fst (partition_on (CHR ''?'') url3);
          q = snd (snd (partition_on (CHR ''?'') url3));
          p = (if scheme \<in> set uses_params \<and> CHR '';'' \<in> set url4 then strip_params url4 else url4)
      in if (CHR ''['' \<in> set nl) \<noteq> (CHR '']'' \<in> set nl) then None
         else Some \<lparr>netloc = nl, path = p, query = q, hostname = hostname_of nl\<rparr>)"

subsubsection \<open>ipaddress.ip_network\<close>

text \<open>
  \<^verbatim>\<open>ipaddress.ip_network(s)\<close> for the strings the program passes to it: they hold no
  colon (they are \<^verbatim>\<open>item.split(":")[1]\<close>), so they are never IPv6. Accepted here: a dotted
  quad, optionally followed by \<^verbatim>\<open>/\<close> and a prefix length, with no host bit set; the
  netmask notation after \<^verbatim>\<open>/\<close> is not modelled. Everything else is a ValueError.
\<close>

definition decimal :: "string \<Rightarrow> nat" where
  "decimal s = foldl (\<lambda>n c. 10 * n + (of_char c - 48)) 0 s"

definition parse_octet :: "string \<Rightarrow> nat option" where
  "parse_octet s =
     (if s \<noteq> [] \<and> list_all is_digit s \<and> length s \<le> 3 \<and> (s = ''0'' \<or> hd s \<noteq> CHR ''0'')
         \<and> decimal s \<le> 255
      then Some (decimal s) else None)"

definition parse_address :: "string \<Rightarrow> 32 word option" where
  "parse_address s =
     (let octets = map parse_octet (split_on (CHR ''.'') s) in
      if length octets = 4 \<and> None \<notin> set octets
      then Some (of_nat (foldl (\<lambda>n x. 256 * n + the x) 0 octets)) else None)"

definition parse_prefixlen :: "string \<Rightarrow> nat option" where
  "parse_prefixlen s =
     (if s \<noteq> [] \<and> list_all is_digit s \<and> length s \<le> 2 \<and> decimal s \<le> 32
      then Some (decimal s) else None)"

definition python_ip_network :: "string \<Rightarrow> network option" where
  "python_ip_network s =
     (let parts = split_on (CHR ''/'') s in
      if 2 < length parts then None
      else (case parse_address (hd parts) of
              None \<Rightarrow> None
            | Some a \<Rightarrow>
                (case (if length parts = 2 then parse_prefixlen (parts ! 1) else Some 32) of
                   None \<Rightarrow> None
                 | Some plen \<Rightarrow>
                     if a AND mask (32 - plen) = 0 then Some (Network a plen) else None)))"

subsubsection \<open>The environment of the concrete runs\<close>

text \<open>
  In the concrete runs no host name resolves (\<^verbatim>\<open>gethostbyname\<close> raises
  \<^verbatim>\<open>socket.gaierror\<close>), \<^verbatim>\<open>random.shuffle\<close> reverses, and no blocklist holds a regular
  expression, so the two functions of \<^verbatim>\<open>re\<close> are never called; they stand for an engine
  that compiles every pattern and matches none.
\<close>

definition python_libs :: libs where
  "python_libs =
     \<lparr>urlparse = python_urlparse, md5_hexdigest = md5_hex, gethostbyname = (\<lambda>h. Gaierror),
      ip_network = python_ip_network, re_compile = (\<lambda>p. True), re_match = (\<lambda>p u. False),
      shuffle = rev\<rparr>"

section \<open>Properties\<close>

subsection \<open>Calls of the driver that succeed\<close>

lemma driver_call_ok: "faults s = [] \<Longrightarrow> driver_call s = (None, s)"
  by (simp add: driver_call_def)

lemma driver_call_tables:
  "driver_call s = (r, s') \<Longrightarrow>
     targets s' = targets s \<and> fingerprints s' = fingerprints s \<and> insert s' = insert s
     \<and> conflict s' = conflict s \<and> db_module s' = db_module s"
  by (auto simp: driver_call_def split: list.splits)

text \<open>
  C7. \<^verbatim>\<open>flush_fingerprints\<close> empties the table of fingerprints and sets the flag
  \<^verbatim>\<open>scanned\<close> of every target to false, so that every target is unscanned again and
  \<^verbatim>\<open>get_next_target\<close> selects all of them; \<^verbatim>\<open>flush_targets\<close> empties the table of targets
  and leaves the fingerprints as they are. Both return when the driver raises no error.
\<close>

theorem flush_semantics:
  "(flush_fingerprints s = Inr s1 \<longrightarrow>
      fingerprints s1 = []
      \<and> targets s1 = map (\<lambda>r. r\<lparr>row_scanned := False\<rparr>) (targets s)
      \<and> filter (\<lambda>r. \<not> row_scanned r) (targets s1) = targets s1
      \<and> map row_url (targets s1) = map row_url (targets s))
   \<and> (flush_targets s = Inr s2 \<longrightarrow> targets s2 = [] \<and> fingerprints s2 = fingerprints s)
   \<and> (faults s = [] \<longrightarrow>
        flush_fingerprints s = Inr (s\<lparr>fingerprints := [], targets := sql_reset_scanned (targets s)\<rparr>)
        \<and> flush_targets s = Inr (s\<lparr>targets := []\<rparr>))"
proof (intro conjI impI)
  assume a: "flush_fingerprints s = Inr s1"
  then obtain sa sb where
    d1: "driver_call s = (None, sa)" and
    d2: "driver_call (sa\<lparr>fingerprints := []\<rparr>) = (None, sb)" and
    s1: "s1 = sb\<lparr>targets := sql_reset_scanned (targets sb)\<rparr>"
    by (auto simp: flush_fingerprints_def split: prod.splits option.splits)
  from driver_call_tables [OF d1] driver_call_tables [OF d2]
  have t: "targets sb = targets s" and f: "fingerprints sb = []"
    by simp_all
  show "fingerprints s1 = []" using s1 f by simp
  show "targets s1 = map (\<lambda>r. r\<lparr>row_scanned := False\<rparr>) (targets s)"
    using s1 t by (simp add: sql_reset_scanned_def)
  show "filter (\<lambda>r. \<not> row_scanned r) (targets s1) = targets s1"
    using s1 by (simp add: sql_reset_scanned_def)
  show "map row_url (targets s1) = map row_url (targets s)"
    using s1 t by (simp add: sql_reset_scanned_def comp_def)
next
  assume a: "flush_targets s = Inr s2"
  then obtain sa where d1: "driver_call s = (None, sa)" and s2: "s2 = sa\<lparr>targets := []\<rparr>"
    by (auto simp: flush_targets_def split: prod.splits option.splits)
  show "targets s2 = []" using s2 by simp
  show "fingerprints s2 = fingerprints s" using driver_call_tables [OF d1] s2 by simp
next
  assume "faults s = []"
  then show "flush_fingerprints s = Inr (s\<lparr>fingerprints := [], targets := sql_reset_scanned (targets s)\<rparr>)"
    by (simp add: flush_fingerprints_def driver_call_def)
next
  assume "faults s = []"
  then show "flush_targets s = Inr (s\<lparr>targets := []\<rparr>)"
    by (simp add: flush_targets_def driver_call_def)
qed

definition example_db :: db where
  "example_db =
     TargetDatabase ''dorkbot.db''
       [\<lparr>row_url = ''http://h/p?x=1'', row_source = Some ''bing'', row_scanned = True\<rparr>,
        \<lparr>row_url = ''http://h/q'', row_source = None, row_scanned = False\<rparr>]
       [''8f0a6d8d69693a39e93f6976cd6612a4''] []"

theorem flush_semantics_witness:
  "flush_fingerprints example_db =
     Inr (example_db\<lparr>fingerprints := [],
            targets := [\<lparr>row_url = ''http://h/p?x=1'', row_source = Some ''bing'', row_scanned = False\<rparr>,
                        \<lparr>row_url = ''http://h/q'', row_source = None, row_scanned = False\<rparr>]\<rparr>)
   \<and> flush_targets example_db = Inr (example_db\<lparr>targets := []\<rparr>)
   \<and> fingerprints (example_db\<lparr>targets := []\<rparr>) = [''8f0a6d8d69693a39e93f6976cd6612a4'']"
  using flush_semantics [of example_db "example_db\<lparr>fingerprints := [], targets := sql_reset_scanned (targets example_db)\<rparr>"
      "example_db\<lparr>targets := []\<rparr>"]
  by (simp add: example_db_def TargetDatabase_def startswith_def sql_reset_scanned_def)

subsection \<open>Listing the urls\<close>

lemma join_rows_url_only:
  "join_rows (map (\<lambda>r. [Some (row_url r)]) rows) = Inr (map row_url rows)"
  by (induction rows) (simp_all add: join_row_def)

lemma join_rows_url_source:
  "join_rows (map (\<lambda>r. [Some (row_url r), row_source r]) rows) =
     (if None \<in> set (map row_source rows) then Inl TypeError
      else Inr (map (\<lambda>r. row_url r @ '' | '' @ the (row_source r)) rows))"
  by (induction rows) (auto simp: join_row_def)

text \<open>
  C10. With \<^verbatim>\<open>source=True\<close> every element \<^verbatim>\<open>get_urls\<close> returns is the url and the source
  of a row joined by \<^verbatim>\<open>" | "\<close>, and when a selected row has no source the join raises a
  TypeError that nothing catches; with \<^verbatim>\<open>source=False\<close> or a label the result is the
  plain urls of the selected rows. (The driver raises no error.)
\<close>

theorem get_urls_source_flag:
  "faults s = [] \<longrightarrow>
     get_urls L unscanned_only (SourceFlag True) randomize s =
       (let rows = filter (\<lambda>r. if unscanned_only then \<not> row_scanned r else True) (targets s) in
        if None \<in> set (map row_source rows) then Inl TypeError
        else Inr ((if randomize then shuffle L else id)
                    (map (\<lambda>r. row_url r @ '' | '' @ the (row_source r)) rows), s))
     \<and> get_urls L unscanned_only (SourceFlag False) randomize s =
         Inr ((if randomize then shuffle L else id)
                (map row_url (filter (\<lambda>r. if unscanned_only then \<not> row_scanned r else True) (targets s))), s)
     \<and> get_urls L unscanned_only (SourceLabel l) randomize s =
         Inr ((if randomize then shuffle L else id)
                (map row_url (filter (\<lambda>r. (if unscanned_only then \<not> row_scanned r else True)
                                          \<and> (l = [] \<or> row_source r = Some l)) (targets s))), s)"
proof (intro impI conjI)
  assume f: "faults s = []"
  show "get_urls L unscanned_only (SourceFlag True) randomize s =
       (let rows = filter (\<lambda>r. if unscanned_only then \<not> row_scanned r else True) (targets s) in
        if None \<in> set (map row_source rows) then Inl TypeError
        else Inr ((if randomize then shuffle L else id)
                    (map (\<lambda>r. row_url r @ '' | '' @ the (row_source r)) rows), s))"
    using f by (simp add: get_urls_def driver_call_def Let_def join_rows_url_source)
  show "get_urls L unscanned_only (SourceFlag False) randomize s =
         Inr ((if randomize then shuffle L else id)
                (map row_url (filter (\<lambda>r. if unscanned_only then \<not> row_scanned r else True) (targets s))), s)"
    using f by (simp add: get_urls_def driver_call_def Let_def join_rows_url_only)
  show "get_urls L unscanned_only (SourceLabel l) randomize s =
         Inr ((if randomize then shuffle L else id)
                (map row_url (filter (\<lambda>r. (if unscanned_only then \<not> row_scanned r else True)
                                          \<and> (l = [] \<or> row_source r = Some l)) (targets s))), s)"
    using f by (simp add: get_urls_def driver_call_def Let_def join_rows_url_only)
qed

theorem get_urls_source_flag_witness:
  "get_urls python_libs False (SourceFlag True) False example_db = Inl TypeError
   \<and> get_urls python_libs True (SourceFlag True) False (example_db\<lparr>targets := take 1 (targets example_db)\<rparr>)
       = Inr ([], example_db\<lparr>targets := take 1 (targets example_db)\<rparr>)
   \<and> get_urls python_libs False (SourceFlag True) False (example_db\<lparr>targets := take 1 (targets example_db)\<rparr>)
       = Inr ([''http://h/p?x=1 | bing''], example_db\<lparr>targets := take 1 (targets example_db)\<rparr>)
   \<and> get_urls python_libs False (SourceFlag False) False example_db
       = Inr ([''http://h/p?x=1'', ''http://h/q''], example_db)
   \<and> get_urls python_libs False (SourceLabel ''bing'') False example_db
       = Inr ([''http://h/p?x=1''], example_db)"
  using get_urls_source_flag [of example_db python_libs False False "''bing''"]
    get_urls_source_flag [of "example_db\<lparr>targets := take 1 (targets example_db)\<rparr>" python_libs True False "''bing''"]
    get_urls_source_flag [of "example_db\<lparr>targets := take 1 (targets example_db)\<rparr>" python_libs False False "''bing''"]
  by (simp add: example_db_def TargetDatabase_def startswith_def Let_def)

subsection \<open>Adding targets\<close>


lemma TargetDatabase_tables [simp]:
  "targets (TargetDatabase uri rows fps fl) = rows"
  "fingerprints (TargetDatabase uri rows fps fl) = fps"
  "faults (TargetDatabase uri rows fps fl) = fl"
  by (simp_all add: TargetDatabase_def)

text \<open>The rows of a url.\<close>

definition rows_of :: "string \<Rightarrow> target_row list \<Rightarrow> target_row list" where
  "rows_of u rows = filter (\<lambda>r. row_url r = u) rows"





lemma rows_of_append [simp]: "rows_of u (xs @ ys) = rows_of u xs @ rows_of u ys"
  by (simp add: rows_of_def)

lemma rows_of_deleted [simp]: "rows_of u (filter (\<lambda>r. row_url r \<noteq> u) rows) = []"
  by (induction rows) (auto simp: rows_of_def)

lemma rows_of_single [simp]: "rows_of u [r] = (if row_url r = u then [r] else [])"
  by (simp add: rows_of_def)

lemma add_target_ok:
  "faults s = [] \<Longrightarrow> sql_insert_target (insert s) (conflict s) u src (targets s) = Some rows
     \<Longrightarrow> add_target u src s = Inr (s\<lparr>targets := rows\<rparr>)"
  by (simp add: add_target_def driver_call_def)




lemma add_targets_single: "add_targets [u] src s = add_target u src s"
  by (simp add: add_targets_def add_target_def split: prod.splits option.splits)

lemma rows_of_member: "rows_of u rows = r # rs \<Longrightarrow> u \<in> set (map row_url rows)"
  unfolding rows_of_def by (induction rows) (auto split: if_splits)





subsection \<open>Fingerprints\<close>

lemma split_on_not_Nil [simp]: "split_on c s \<noteq> []"
  by (induction s) auto

lemma split_on_no_sep: "c \<notin> set s \<Longrightarrow> split_on c s = [s]"
  by (induction s) auto

lemma split_on_append_sep:
  "c \<notin> set x \<Longrightarrow> split_on c (x @ c # rest) = x # split_on c rest"
  by (induction x) auto

lemma split_on_join:
  "xs \<noteq> [] \<Longrightarrow> (\<And>x. x \<in> set xs \<Longrightarrow> c \<notin> set x) \<Longrightarrow> split_on c (join [c] xs) = xs"
proof (induction xs)
  case Nil
  then show ?case by simp
next
  case (Cons x xs)
  show ?case
  proof (cases xs)
    case Nil
    with Cons.prems show ?thesis by (simp add: split_on_no_sep)
  next
    case (Cons y ys)
    with Cons.IH Cons.prems have "split_on c (join [c] xs) = xs" by simp
    with Cons Cons.prems show ?thesis by (simp add: split_on_append_sep)
  qed
qed

lemma takeWhile_before: "c \<notin> set k \<Longrightarrow> takeWhile (\<lambda>x. x \<noteq> c) (k @ c # v) = k"
  by (induction k) auto

lemma dropWhile_before: "c \<notin> set k \<Longrightarrow> dropWhile (\<lambda>x. x \<noteq> c) (k @ c # v) = c # v"
  by (induction k) auto

lemma split1_pair: "c \<notin> set k \<Longrightarrow> split1 c (k @ c # v) = [k, v]"
  by (simp add: split1_def takeWhile_before dropWhile_before)

text \<open>
  A query string built from parameters: \<^verbatim>\<open>name=value\<close> joined by \<^verbatim>\<open>&\<close>, where no name
  holds \<^verbatim>\<open>&\<close> or \<^verbatim>\<open>=\<close> and no value holds \<^verbatim>\<open>&\<close>.
\<close>

definition query_of_params :: "(string \<times> string) list \<Rightarrow> string" where
  "query_of_params ps = join ''&'' (map (\<lambda>p. fst p @ CHR ''='' # snd p) ps)"

definition plain_params :: "(string \<times> string) list \<Rightarrow> bool" where
  "plain_params ps =
     list_all (\<lambda>p. CHR ''&'' \<notin> set (fst p) \<and> CHR ''='' \<notin> set (fst p) \<and> CHR ''&'' \<notin> set (snd p)) ps"

lemma fingerprint_params_pairs:
  "list_all (\<lambda>p. CHR ''='' \<notin> set (fst p)) ps \<Longrightarrow>
     fingerprint_params (map (\<lambda>p. fst p @ CHR ''='' # snd p) ps)
       = map fst (filter (\<lambda>p. snd p \<noteq> []) ps)"
  by (induction ps) (simp_all add: split1_pair Let_def)

lemma fingerprint_params_query:
  assumes "plain_params ps"
  shows "fingerprint_params (split_on (CHR ''&'') (query_of_params ps))
           = map fst (filter (\<lambda>p. snd p \<noteq> []) ps)"
proof (cases "ps = []")
  case True
  then show ?thesis by (simp add: query_of_params_def split1_def)
next
  case False
  have "split_on (CHR ''&'') (join ''&'' (map (\<lambda>p. fst p @ CHR ''='' # snd p) ps))
          = map (\<lambda>p. fst p @ CHR ''='' # snd p) ps"
    using False assms by (intro split_on_join) (auto simp: plain_params_def list_all_iff)
  moreover have "list_all (\<lambda>p. CHR ''='' \<notin> set (fst p)) ps"
    using assms by (auto simp: plain_params_def list_all_iff)
  ultimately show ?thesis
    by (simp add: query_of_params_def fingerprint_params_pairs)
qed

lemma sort_mset_eq: "mset xs = mset ys \<Longrightarrow> sort xs = sort (ys :: string list)"
  by (metis mset_sort sorted_sort sorted_sort_id properties_for_sort)

lemma Target_urlparse:
  "Target L u = Inr t \<Longrightarrow> \<exists>p. urlparse L u = Some p \<and> url t = u \<and> host t = hostname p"
  by (auto simp: Target_def split: option.splits)

text \<open>
  C3, as the code has it. For a target that \<^verbatim>\<open>Target(url)\<close> has built,
  \<^verbatim>\<open>generate_fingerprint\<close> returns, and the result is the hash of the network location,
  the number of \<^verbatim>\<open>/\<close> in the path, the last path segment and the sorted names of the
  query parameters with a non-empty value, joined by \<^verbatim>\<open>|\<close>. So two urls that agree on
  these four fingerprint identically, whatever else differs: the values of the
  parameters, their order, the parameters with an empty value, and the path above its
  last segment.
\<close>

theorem fingerprint_components:
  assumes "Target L u1 = Inr t1" and "Target L u2 = Inr t2"
  shows "\<exists>p1 p2.
    urlparse L u1 = Some p1 \<and> urlparse L u2 = Some p2
    \<and> generate_fingerprint L t1 =
        Inr (generate_hash L (join ''|''
          [netloc p1, str_nat (count_char (CHR ''/'') (path p1)), last (split_on (CHR ''/'') (path p1)),
           join '','' (sort (fingerprint_params (split_on (CHR ''&'') (query p1))))]))
    \<and> (plain_params ps1 \<and> query p1 = query_of_params ps1 \<longrightarrow>
          fingerprint_params (split_on (CHR ''&'') (query p1)) = map fst (filter (\<lambda>p. snd p \<noteq> []) ps1))
    \<and> (netloc p1 = netloc p2
        \<and> count_char (CHR ''/'') (path p1) = count_char (CHR ''/'') (path p2)
        \<and> last (split_on (CHR ''/'') (path p1)) = last (split_on (CHR ''/'') (path p2))
        \<and> mset (fingerprint_params (split_on (CHR ''&'') (query p1)))
            = mset (fingerprint_params (split_on (CHR ''&'') (query p2)))
        \<longrightarrow> generate_fingerprint L t1 = generate_fingerprint L t2)"
proof -
  from Target_urlparse [OF assms(1)] obtain p1 where p1: "urlparse L u1 = Some p1" "url t1 = u1"
    by blast
  from Target_urlparse [OF assms(2)] obtain p2 where p2: "urlparse L u2 = Some p2" "url t2 = u2"
    by blast
  have g1: "generate_fingerprint L t1 = Inr (generate_hash L (fingerprint_string p1))"
    using p1 by (simp add: generate_fingerprint_def)
  have g2: "generate_fingerprint L t2 = Inr (generate_hash L (fingerprint_string p2))"
    using p2 by (simp add: generate_fingerprint_def)
  have same: "fingerprint_string p1 = fingerprint_string p2"
    if "netloc p1 = netloc p2"
      "count_char (CHR ''/'') (path p1) = count_char (CHR ''/'') (path p2)"
      "last (split_on (CHR ''/'') (path p1)) = last (split_on (CHR ''/'') (path p2))"
      "mset (fingerprint_params (split_on (CHR ''&'') (query p1)))
         = mset (fingerprint_params (split_on (CHR ''&'') (query p2)))"
    using that sort_mset_eq [OF that(4)] by (simp add: fingerprint_string_def Let_def)
  show ?thesis
    apply (rule exI [of _ p1], rule exI [of _ p2])
    using p1 p2 g1 g2 same fingerprint_params_query [of ps1]
    by (auto simp: fingerprint_string_def Let_def)
qed

lemma urlparse_example_1:
  "python_urlparse ''http://h/a/c?x=1&y=2''
     = Some \<lparr>netloc = ''h'', path = ''/a/c'', query = ''x=1&y=2'', hostname = Some ''h''\<rparr>"
  by code_simp

lemma urlparse_example_2:
  "python_urlparse ''http://h/b/c?y=5&z=&x=7''
     = Some \<lparr>netloc = ''h'', path = ''/b/c'', query = ''y=5&z=&x=7'', hostname = Some ''h''\<rparr>"
  by code_simp

lemma fingerprint_string_example_1:
  "fingerprint_string \<lparr>netloc = ''h'', path = ''/a/c'', query = ''x=1&y=2'', hostname = Some ''h''\<rparr>
     = ''h|2|c|x,y''"
  by code_simp

lemma fingerprint_string_example_2:
  "fingerprint_string \<lparr>netloc = ''h'', path = ''/b/c'', query = ''y=5&z=&x=7'', hostname = Some ''h''\<rparr>
     = ''h|2|c|x,y''"
  by code_simp

theorem fingerprint_components_witness:
  "Target python_libs ''http://h/a/c?x=1&y=2''
     = Inr \<lparr>url = ''http://h/a/c?x=1&y=2'', host = Some ''h'', ip = IpNone\<rparr>
   \<and> Target python_libs ''http://h/b/c?y=5&z=&x=7''
     = Inr \<lparr>url = ''http://h/b/c?y=5&z=&x=7'', host = Some ''h'', ip = IpNone\<rparr>
   \<and> generate_fingerprint python_libs
        \<lparr>url = ''http://h/a/c?x=1&y=2'', host = Some ''h'', ip = IpNone\<rparr>
     = Inr (md5_hex ''h|2|c|x,y'')
   \<and> generate_fingerprint python_libs
        \<lparr>url = ''http://h/b/c?y=5&z=&x=7'', host = Some ''h'', ip = IpNone\<rparr>
     = Inr (md5_hex ''h|2|c|x,y'')"
  using fingerprint_components
    [of python_libs "''http://h/a/c?x=1&y=2''"
        "\<lparr>url = ''http://h/a/c?x=1&y=2'', host = Some ''h'', ip = IpNone\<rparr>"
        "''http://h/b/c?y=5&z=&x=7''"
        "\<lparr>url = ''http://h/b/c?y=5&z=&x=7'', host = Some ''h'', ip = IpNone\<rparr>"
        "[(''x'', ''1''), (''y'', ''2'')]"]
  by (simp add: Target_def generate_fingerprint_def generate_hash_def python_libs_def
      urlparse_example_1 urlparse_example_2 fingerprint_string_example_1
      fingerprint_string_example_2)

lemma urlparse_example_3:
  "python_urlparse ''http://h/a/c?x=''
     = Some \<lparr>netloc = ''h'', path = ''/a/c'', query = ''x='', hostname = Some ''h''\<rparr>"
  by code_simp

lemma urlparse_example_4:
  "python_urlparse ''http://h/b/c?y=''
     = Some \<lparr>netloc = ''h'', path = ''/b/c'', query = ''y='', hostname = Some ''h''\<rparr>"
  by code_simp

lemma fingerprint_string_example_3:
  "fingerprint_string \<lparr>netloc = ''h'', path = ''/a/c'', query = ''x='', hostname = Some ''h''\<rparr>
     = ''h|2|c|''"
  by code_simp

lemma fingerprint_string_example_4:
  "fingerprint_string \<lparr>netloc = ''h'', path = ''/b/c'', query = ''y='', hostname = Some ''h''\<rparr>
     = ''h|2|c|''"
  by code_simp

text \<open>
  C3 as stated fails: \<^verbatim>\<open>http://h/a/c?x=\<close> and \<^verbatim>\<open>http://h/b/c?y=\<close> differ in their
  paths and in the names of their parameters, and have the same fingerprint.
\<close>

theorem fingerprint_counterexample:
  "map_option path (urlparse python_libs ''http://h/a/c?x='') = Some ''/a/c''
   \<and> map_option path (urlparse python_libs ''http://h/b/c?y='') = Some ''/b/c''
   \<and> map_option query (urlparse python_libs ''http://h/a/c?x='') = Some ''x=''
   \<and> map_option query (urlparse python_libs ''http://h/b/c?y='') = Some ''y=''
   \<and> Target python_libs ''http://h/a/c?x=''
       = Inr \<lparr>url = ''http://h/a/c?x='', host = Some ''h'', ip = IpNone\<rparr>
   \<and> Target python_libs ''http://h/b/c?y=''
       = Inr \<lparr>url = ''http://h/b/c?y='', host = Some ''h'', ip = IpNone\<rparr>
   \<and> generate_fingerprint python_libs \<lparr>url = ''http://h/a/c?x='', host = Some ''h'', ip = IpNone\<rparr>
       = generate_fingerprint python_libs \<lparr>url = ''http://h/b/c?y='', host = Some ''h'', ip = IpNone\<rparr>"
  by (simp add: Target_def generate_fingerprint_def generate_hash_def python_libs_def
      urlparse_example_3 urlparse_example_4 fingerprint_string_example_3
      fingerprint_string_example_4)

subsection \<open>Fingerprints are kept\<close>

lemma connect_tables:
  "connect s = Inr s' \<Longrightarrow>
     targets s' = targets s \<and> fingerprints s' = fingerprints s \<and> insert s' = insert s
     \<and> conflict s' = conflict s \<and> db_module s' = db_module s"
  by (auto simp: connect_def dest: driver_call_tables split: prod.splits option.splits)

lemma mark_scanned_loop_fingerprints:
  "mark_scanned_loop n u (c, s) = Inr (c', s') \<Longrightarrow> fingerprints s' = fingerprints s"
proof (induction n arbitrary: c s)
  case 0
  then show ?case by simp
next
  case (Suc n)
  obtain r s1 where d: "driver_call s = (r, s1)" by (cases "driver_call s")
  note t = driver_call_tables [OF d]
  show ?case
  proof (cases r)
    case None
    with Suc.prems d
    have "mark_scanned_loop n u ([], s1\<lparr>targets := sql_mark_scanned u (targets s1)\<rparr>) = Inr (c', s')"
      by simp
    from Suc.IH [OF this] t show ?thesis by simp
  next
    case (Some e)
    show ?thesis
    proof (cases e)
      case ConnectionLost
      with Some Suc.prems d obtain s2 where
        c: "connect s1 = Inr s2" and m: "mark_scanned_loop n u (c, s2) = Inr (c', s')"
        by (auto split: sum.splits)
      from Suc.IH [OF m] connect_tables [OF c] t show ?thesis by simp
    next
      case OtherDbError
      with Some Suc.prems d show ?thesis by simp
    qed
  qed
qed

lemma mark_scanned_fingerprints:
  "mark_scanned u cs = Inr (c', s') \<Longrightarrow> fingerprints s' = fingerprints (snd cs)"
  unfolding mark_scanned_def by (cases cs) (auto dest: mark_scanned_loop_fingerprints)

lemma get_scanned_loop_fingerprints:
  "get_scanned_loop n fp (c, s) = Inr (r, c', s') \<Longrightarrow>
     fingerprints s' = fingerprints s \<and> targets s' = targets s \<and> insert s' = insert s"
proof (induction n arbitrary: s)
  case 0
  then show ?case by simp
next
  case (Suc n)
  obtain r1 s1 where d: "driver_call s = (r1, s1)" by (cases "driver_call s")
  note t = driver_call_tables [OF d]
  show ?case
  proof (cases r1)
    case None
    with Suc.prems d t show ?thesis by (auto split: if_splits)
  next
    case (Some e)
    show ?thesis
    proof (cases e)
      case ConnectionLost
      with Some Suc.prems d obtain s2 where
        c: "connect s1 = Inr s2" and m: "get_scanned_loop n fp (c, s2) = Inr (r, c', s')"
        by (auto split: sum.splits)
      from Suc.IH [OF m] connect_tables [OF c] t show ?thesis by simp
    next
      case OtherDbError
      with Some Suc.prems d show ?thesis by simp
    qed
  qed
qed

lemma get_scanned_fingerprints:
  "get_scanned fp cs = Inr (r, c', s') \<Longrightarrow> fingerprints s' = fingerprints (snd cs)"
  unfolding get_scanned_def by (cases cs) (auto dest: get_scanned_loop_fingerprints)

lemma sql_insert_fingerprint_subset:
  "sql_insert_fingerprint ins fp fps = Some fps' \<Longrightarrow> set fps \<subseteq> set fps'"
  by (auto simp: sql_insert_fingerprint_def split: if_splits)

lemma get_next_target_loop_fingerprints:
  "get_next_target_loop L cs = Inr (r, s') \<Longrightarrow> set (fingerprints (snd cs)) \<subseteq> set (fingerprints s')"
proof (induction L cs arbitrary: r s' rule: get_next_target_loop.induct)
  case (1 L c s)
  show ?case
  proof (cases c)
    case Nil
    with "1.prems" show ?thesis by (simp add: get_next_target_loop.simps)
  next
    case (Cons u rest)
    from "1.prems" Cons obtain t fp cs1 r2 c2 s2 where
      t: "Target L u = Inr t" and fp: "generate_fingerprint L t = Inr fp" and
      m: "mark_scanned u (rest, s) = Inr cs1" and g: "get_scanned fp cs1 = Inr (r2, c2, s2)"
      by (subst (asm) get_next_target_loop.simps) (auto split: sum.splits)
    from mark_scanned_fingerprints [of u "(rest, s)" "fst cs1" "snd cs1"] m
    have f1: "fingerprints (snd cs1) = fingerprints s" by simp
    from get_scanned_fingerprints [OF g] have f2: "fingerprints s2 = fingerprints (snd cs1)" .
    show ?thesis
    proof (cases "truthy r2")
      case True
      with "1.prems" Cons t fp m g have "get_next_target_loop L (c2, s2) = Inr (r, s')"
        by (subst (asm) get_next_target_loop.simps) simp
      from "1.IH" [OF Cons t fp m g refl refl True this] f1 f2
      show ?thesis by simp
    next
      case False
      with "1.prems" Cons t fp m g obtain s3 fps where
        d: "driver_call s2 = (None, s3)" and
        i: "sql_insert_fingerprint (insert s3) fp (fingerprints s3) = Some fps" and
        s': "s' = s3\<lparr>fingerprints := fps\<rparr>"
        by (subst (asm) get_next_target_loop.simps)
           (auto split: prod.splits option.splits)
      from driver_call_tables [OF d] sql_insert_fingerprint_subset [OF i] s' f1 f2
      show ?thesis by simp
    qed
  qed
qed


lemma get_next_target_fingerprints:
  "get_next_target L random s = Inr (r, s') \<Longrightarrow> set (fingerprints s) \<subseteq> set (fingerprints s')"
proof -
  assume a: "get_next_target L random s = Inr (r, s')"
  then obtain s1 c where d: "driver_call s = (None, s1)"
    and l: "get_next_target_loop L (c, s1) = Inr (r, s')"
    by (auto simp: get_next_target_def Let_def split: prod.splits option.splits)
  from get_next_target_loop_fingerprints [OF l] driver_call_tables [OF d]
  show ?thesis by simp
qed

lemma delete_target_fingerprints:
  "delete_target u s = Inr s' \<Longrightarrow> fingerprints s' = fingerprints s"
  by (auto simp: delete_target_def dest: driver_call_tables split: prod.splits option.splits)

lemma prune_loop_fingerprints:
  "prune_loop L bls us seen s = Inr s' \<Longrightarrow> fingerprints s' = fingerprints s"
proof (induction us arbitrary: seen s)
  case Nil
  then show ?case by simp
next
  case (Cons u us)
  from Cons.prems obtain t fp where
    t: "Target L u = Inr t" and fp: "generate_fingerprint L t = Inr fp"
    by (auto split: sum.splits)
  show ?case
  proof (cases "fp \<in> seen")
    case True
    with Cons.prems t fp obtain c' s2 where
      m: "mark_scanned u ([], s) = Inr (c', s2)" and p: "prune_loop L bls us seen s2 = Inr s'"
      by (auto split: sum.splits)
    from Cons.IH [OF p] mark_scanned_fingerprints [OF m] show ?thesis by simp
  next
    case False
    with Cons.prems t fp obtain r c s1 where
      g: "get_scanned fp ([], s) = Inr (r, c, s1)"
      by (auto split: sum.splits)
    from get_scanned_fingerprints [OF g] have f1: "fingerprints s1 = fingerprints s" by simp
    show ?thesis
    proof (cases "truthy r")
      case True
      with Cons.prems t fp False g obtain c' s2 where
        m: "mark_scanned u (c, s1) = Inr (c', s2)" and p: "prune_loop L bls us seen s2 = Inr s'"
        by (auto split: sum.splits)
      from Cons.IH [OF p] mark_scanned_fingerprints [OF m] f1 show ?thesis by simp
    next
      case nt: False
      with Cons.prems t fp False g obtain blocked where
        b: "match_any L bls t = Inr blocked"
        by (auto split: sum.splits)
      show ?thesis
      proof (cases blocked)
        case True
        with Cons.prems t fp False g nt b obtain s2 where
          d: "delete_target u s1 = Inr s2" and p: "prune_loop L bls us seen s2 = Inr s'"
          by (auto split: sum.splits)
        from Cons.IH [OF p] delete_target_fingerprints [OF d] f1 show ?thesis by simp
      next
        case nb: False
        with Cons.prems t fp False g nt b
        have p: "prune_loop L bls us (Set.insert fp seen) s1 = Inr s'"
          by simp
        from Cons.IH [OF p] f1 show ?thesis by simp
      qed
    qed
  qed
qed

lemma get_urls_tables:
  "get_urls L uo src rnd s = Inr (urls, s') \<Longrightarrow>
     fingerprints s' = fingerprints s \<and> targets s' = targets s"
  by (auto simp: get_urls_def Let_def dest: driver_call_tables
      split: prod.splits option.splits sum.splits)

lemma prune_fingerprints:
  "prune L bls rnd s = Inr s' \<Longrightarrow> fingerprints s' = fingerprints s"
proof -
  assume "prune L bls rnd s = Inr s'"
  then obtain urls s1 where
    g: "get_urls L False (SourceFlag False) False s = Inr (urls, s1)" and
    p: "prune_loop L bls (if rnd then shuffle L urls else urls) {} s1 = Inr s'"
    by (auto simp: prune_def split: sum.splits)
  from get_urls_tables [OF g] prune_loop_fingerprints [OF p] show ?thesis by simp
qed

lemma add_target_fingerprints:
  "add_target u src s = Inr s' \<Longrightarrow> fingerprints s' = fingerprints s"
  by (auto simp: add_target_def dest: driver_call_tables split: prod.splits option.splits)

lemma add_targets_fingerprints:
  "add_targets us src s = Inr s' \<Longrightarrow> fingerprints s' = fingerprints s"
  by (auto simp: add_targets_def dest: driver_call_tables split: prod.splits option.splits)

lemma flush_targets_fingerprints:
  "flush_targets s = Inr s' \<Longrightarrow> fingerprints s' = fingerprints s"
  by (auto simp: flush_targets_def dest: driver_call_tables split: prod.splits option.splits)

text \<open>The operations of the store, and a sequence of them run in order.\<close>

datatype store_op =
    Add_target string "string option"
  | Add_targets "string list" "string option"
  | Delete_target string
  | Get_next_target bool
  | Mark_scanned string
  | Prune "blocklist list" bool
  | Flush_targets
  | Flush_fingerprints

fun run_op :: "libs \<Rightarrow> store_op \<Rightarrow> db \<Rightarrow> error + db" where
  "run_op L (Add_target u src) s = add_target u src s"
| "run_op L (Add_targets us src) s = add_targets us src s"
| "run_op L (Delete_target u) s = delete_target u s"
| "run_op L (Get_next_target random) s = map_sum id snd (get_next_target L random s)"
| "run_op L (Mark_scanned u) s = map_sum id snd (mark_scanned u ([], s))"
| "run_op L (Prune blocklists randomize) s = prune L blocklists randomize s"
| "run_op L Flush_targets s = flush_targets s"
| "run_op L Flush_fingerprints s = flush_fingerprints s"

fun run_ops :: "libs \<Rightarrow> store_op list \<Rightarrow> db \<Rightarrow> error + db" where
  "run_ops L [] s = Inr s"
| "run_ops L (x # xs) s = (case run_op L x s of Inl e \<Rightarrow> Inl e | Inr s' \<Rightarrow> run_ops L xs s')"

lemma run_op_fingerprints:
  "x \<noteq> Flush_fingerprints \<Longrightarrow> run_op L x s = Inr s' \<Longrightarrow>
     set (fingerprints s) \<subseteq> set (fingerprints s')"
proof (cases x)
  case (Get_next_target random)
  assume "run_op L x s = Inr s'"
  with Get_next_target obtain r where "get_next_target L random s = Inr (r, s')"
    by (cases "get_next_target L random s") auto
  from get_next_target_fingerprints [OF this] show ?thesis .
next
  case (Mark_scanned u)
  assume "run_op L x s = Inr s'"
  with Mark_scanned obtain c where "mark_scanned u ([], s) = Inr (c, s')"
    by (cases "mark_scanned u ([], s)") auto
  from mark_scanned_fingerprints [OF this] show ?thesis by simp
qed (auto dest: add_target_fingerprints add_targets_fingerprints delete_target_fingerprints
      prune_fingerprints flush_targets_fingerprints)

text \<open>
  C9. Whatever sequence of \<^verbatim>\<open>add_target\<close>, \<^verbatim>\<open>add_targets\<close>, \<^verbatim>\<open>delete_target\<close>,
  \<^verbatim>\<open>get_next_target\<close>, \<^verbatim>\<open>mark_scanned\<close>, \<^verbatim>\<open>prune\<close> and \<^verbatim>\<open>flush_targets\<close> runs to its end,
  with any behaviour of the driver and of the libraries, every fingerprint recorded
  before is recorded after.
\<close>

theorem fingerprints_kept:
  "Flush_fingerprints \<notin> set ops \<Longrightarrow> run_ops L ops s = Inr s' \<Longrightarrow>
     set (fingerprints s) \<subseteq> set (fingerprints s')"
proof (induction ops arbitrary: s)
  case Nil
  then show ?case by simp
next
  case (Cons x xs)
  from Cons.prems obtain s1 where 1: "run_op L x s = Inr s1" and 2: "run_ops L xs s1 = Inr s'"
    by (auto split: sum.splits)
  from Cons.prems have "x \<noteq> Flush_fingerprints" by auto
  from run_op_fingerprints [OF this 1] Cons.IH [OF _ 2] Cons.prems show ?case by auto
qed

subsection \<open>Claiming the next target\<close>

lemma sql_mark_scanned_twice [simp]:
  "sql_mark_scanned u (sql_mark_scanned u rows) = sql_mark_scanned u rows"
  by (induction rows) (simp_all add: sql_mark_scanned_def)

lemma mark_scanned_ok:
  "faults s = [] \<Longrightarrow>
     mark_scanned u (c, s) = Inr ([], s\<lparr>targets := sql_mark_scanned u (targets s)\<rparr>)"
  by (simp add: mark_scanned_def numeral_3_eq_3 driver_call_def)

lemma get_scanned_ok:
  "faults s = [] \<Longrightarrow>
     get_scanned fp (c, s) = Inr (if fp \<in> set (fingerprints s) then Some fp else None, [], s)"
  by (simp add: get_scanned_def numeral_3_eq_3 driver_call_def)

text \<open>
  When the driver raises no error and the fingerprint of the first unscanned row is
  recorded, \<^verbatim>\<open>get_next_target\<close> marks that row and returns \<^verbatim>\<open>None\<close>, whatever unscanned
  rows follow: the \<^verbatim>\<open>fetchone\<close> after \<^verbatim>\<open>continue\<close> reads the cursor on which the lookup
  of the fingerprint was executed, and that has no row left.
\<close>

lemma get_next_target_duplicate:
  assumes "faults s = []"
    and "map row_url (filter (\<lambda>r. \<not> row_scanned r) (targets s)) = u # rest"
    and "Target L u = Inr t" and "generate_fingerprint L t = Inr fp"
    and "fp \<in> set (fingerprints s)" and "fp \<noteq> []"
  shows "get_next_target L False s = Inr (None, s\<lparr>targets := sql_mark_scanned u (targets s)\<rparr>)"
proof -
  let ?s1 = "s\<lparr>targets := sql_mark_scanned u (targets s)\<rparr>"
  have m: "mark_scanned u (rest, s) = Inr ([], ?s1)"
    using assms(1) by (rule mark_scanned_ok)
  have g: "get_scanned fp ([], ?s1) = Inr (Some fp, [], ?s1)"
    using assms(1,5) by (simp add: get_scanned_ok)
  have e: "get_next_target_loop L ([], ?s1) = Inr (None, ?s1)"
    by (simp add: get_next_target_loop.simps)
  have "get_next_target_loop L (u # rest, s) = Inr (None, ?s1)"
    by (subst get_next_target_loop.simps) (simp add: assms(3,4,6) m g e)
  then show ?thesis
    using assms(1,2) by (simp add: get_next_target_def driver_call_def)
qed

text \<open>When the fingerprint of the first unscanned row is not recorded, the row is marked,
  the fingerprint is recorded and the target is returned.\<close>

lemma get_next_target_novel:
  assumes "faults s = []"
    and "map row_url (filter (\<lambda>r. \<not> row_scanned r) (targets s)) = u # rest"
    and "Target L u = Inr t" and "generate_fingerprint L t = Inr fp"
    and "fp \<notin> set (fingerprints s)"
  shows "get_next_target L False s =
           Inr (Some t, s\<lparr>targets := sql_mark_scanned u (targets s),
                           fingerprints := fingerprints s @ [fp]\<rparr>)"
proof -
  let ?s1 = "s\<lparr>targets := sql_mark_scanned u (targets s)\<rparr>"
  have m: "mark_scanned u (rest, s) = Inr ([], ?s1)"
    using assms(1) by (rule mark_scanned_ok)
  have g: "get_scanned fp ([], ?s1) = Inr (None, [], ?s1)"
    using assms(1,5) by (simp add: get_scanned_ok)
  have "get_next_target_loop L (u # rest, s) =
          Inr (Some t, ?s1\<lparr>fingerprints := fingerprints s @ [fp]\<rparr>)"
    by (subst get_next_target_loop.simps)
       (simp add: assms(1,3,4,5) m g driver_call_def sql_insert_fingerprint_def)
  then show ?thesis
    using assms(1,2) by (simp add: get_next_target_def driver_call_def)
qed

text \<open>When no row is unscanned the result is \<^verbatim>\<open>None\<close>.\<close>

lemma get_next_target_none:
  assumes "faults s = []" and "filter (\<lambda>r. \<not> row_scanned r) (targets s) = []"
  shows "get_next_target L False s = Inr (None, s)"
  using assms by (simp add: get_next_target_def driver_call_def get_next_target_loop.simps)

text \<open>
  A database file in which \<^verbatim>\<open>http://h/p?x=1\<close> has been scanned, so that its fingerprint
  is recorded, and two urls wait: \<^verbatim>\<open>http://h/p?x=2\<close>, which has the same fingerprint,
  and \<^verbatim>\<open>http://h/q\<close>.
\<close>

definition scan_db :: db where
  "scan_db =
     TargetDatabase ''dorkbot.db''
       [\<lparr>row_url = ''http://h/p?x=1'', row_source = None, row_scanned = True\<rparr>,
        \<lparr>row_url = ''http://h/p?x=2'', row_source = None, row_scanned = False\<rparr>,
        \<lparr>row_url = ''http://h/q'', row_source = None, row_scanned = False\<rparr>]
       [md5_hex ''h|1|p|x''] []"

lemma scan_db_simps [simp]:
  "faults scan_db = []"
  "fingerprints scan_db = [md5_hex ''h|1|p|x'']"
  "targets scan_db =
     [\<lparr>row_url = ''http://h/p?x=1'', row_source = None, row_scanned = True\<rparr>,
      \<lparr>row_url = ''http://h/p?x=2'', row_source = None, row_scanned = False\<rparr>,
      \<lparr>row_url = ''http://h/q'', row_source = None, row_scanned = False\<rparr>]"
  "insert scan_db = ''INSERT OR REPLACE''"
  by (simp_all add: scan_db_def TargetDatabase_def startswith_def)

lemma urlparse_example_5:
  "python_urlparse ''http://h/p?x=2''
     = Some \<lparr>netloc = ''h'', path = ''/p'', query = ''x=2'', hostname = Some ''h''\<rparr>"
  by code_simp

lemma fingerprint_string_example_5:
  "fingerprint_string \<lparr>netloc = ''h'', path = ''/p'', query = ''x=2'', hostname = Some ''h''\<rparr>
     = ''h|1|p|x''"
  by code_simp

lemma Target_example_5:
  "Target python_libs ''http://h/p?x=2''
     = Inr \<lparr>url = ''http://h/p?x=2'', host = Some ''h'', ip = IpNone\<rparr>"
  by (simp add: Target_def python_libs_def urlparse_example_5)

lemma generate_fingerprint_example_5:
  "generate_fingerprint python_libs \<lparr>url = ''http://h/p?x=2'', host = Some ''h'', ip = IpNone\<rparr>
     = Inr (md5_hex ''h|1|p|x'')"
  by (simp add: generate_fingerprint_def generate_hash_def python_libs_def urlparse_example_5
      fingerprint_string_example_5)

lemma get_next_target_scan_db:
  "get_next_target python_libs False scan_db =
     Inr (None,
          scan_db\<lparr>targets :=
            [\<lparr>row_url = ''http://h/p?x=1'', row_source = None, row_scanned = True\<rparr>,
             \<lparr>row_url = ''http://h/p?x=2'', row_source = None, row_scanned = True\<rparr>,
             \<lparr>row_url = ''http://h/q'', row_source = None, row_scanned = False\<rparr>]\<rparr>)"
proof -
  have "get_next_target python_libs False scan_db =
          Inr (None, scan_db\<lparr>targets := sql_mark_scanned ''http://h/p?x=2'' (targets scan_db)\<rparr>)"
    by (rule get_next_target_duplicate
          [where rest = "[''http://h/q'']" and fp = "md5_hex ''h|1|p|x''",
             OF _ _ Target_example_5 generate_fingerprint_example_5])
       (simp_all add: md5_hex_not_empty)
  then show ?thesis by (simp add: sql_mark_scanned_def)
qed

text \<open>
  C2 on this database: the first unscanned row, \<^verbatim>\<open>http://h/p?x=2\<close>, is marked and
  skipped, and the result is \<^verbatim>\<open>None\<close>; the row of \<^verbatim>\<open>http://h/q\<close> is still unscanned and
  was never examined.
\<close>

theorem get_next_target_stops_at_duplicate:
  "get_next_target python_libs False scan_db =
     Inr (None,
          scan_db\<lparr>targets :=
            [\<lparr>row_url = ''http://h/p?x=1'', row_source = None, row_scanned = True\<rparr>,
             \<lparr>row_url = ''http://h/p?x=2'', row_source = None, row_scanned = True\<rparr>,
             \<lparr>row_url = ''http://h/q'', row_source = None, row_scanned = False\<rparr>]\<rparr>)"
  by (rule get_next_target_scan_db)

subsection \<open>The retries\<close>

text \<open>An error that is not a lost connection is fatal at once.\<close>

lemma mark_scanned_other_error:
  "faults s = Some OtherDbError # fl \<Longrightarrow>
     mark_scanned u (c, s) = Inl (Exit ''Failed to mark target as scanned'')"
  by (simp add: mark_scanned_def numeral_3_eq_3 driver_call_def)

lemma get_scanned_other_error:
  "faults s = Some OtherDbError # fl \<Longrightarrow>
     get_scanned fp (c, s) = Inl (Exit ''Failed to look up fingerprint'')"
  by (simp add: get_scanned_def numeral_3_eq_3 driver_call_def)

text \<open>A lost connection is followed by a new connection and another attempt.\<close>

lemma get_scanned_retry:
  "faults s = [Some ConnectionLost, None] \<Longrightarrow>
     get_scanned fp (c, s) =
       Inr (if fp \<in> set (fingerprints s) then Some fp else None, [], s\<lparr>faults := []\<rparr>)"
  by (simp add: get_scanned_def numeral_3_eq_3 driver_call_def connect_def)

text \<open>The connection is lost at each of the three attempts, and each reconnect succeeds.\<close>

definition lost_three_times :: "db_error option list" where
  "lost_three_times =
     [Some ConnectionLost, None, Some ConnectionLost, None, Some ConnectionLost, None]"

lemma mark_scanned_gives_up:
  "faults s = lost_three_times \<Longrightarrow> mark_scanned u (c, s) = Inr (c, s\<lparr>faults := []\<rparr>)"
  by (simp add: mark_scanned_def numeral_3_eq_3 driver_call_def connect_def lost_three_times_def)

lemma get_scanned_gives_up:
  "faults s = lost_three_times \<Longrightarrow> get_scanned fp (c, s) = Inl (UnboundLocalError ''row'')"
  by (simp add: get_scanned_def numeral_3_eq_3 driver_call_def connect_def lost_three_times_def)

text \<open>
  C5 on the database above, when the connection is lost at each of the three attempts:
  \<^verbatim>\<open>mark_scanned\<close> returns as if it had succeeded and the row is still unscanned;
  \<^verbatim>\<open>get_scanned\<close> raises UnboundLocalError, which is neither logged nor an exit of the
  program's own.
\<close>

theorem retries_do_not_escalate:
  "mark_scanned ''http://h/q'' ([], scan_db\<lparr>faults := lost_three_times\<rparr>) = Inr ([], scan_db)
   \<and> get_scanned (md5_hex ''h|1|p|x'') ([], scan_db\<lparr>faults := lost_three_times\<rparr>)
       = Inl (UnboundLocalError ''row'')"
  by (simp add: mark_scanned_gives_up get_scanned_gives_up)

theorem fingerprints_kept_witness:
  "Flush_fingerprints \<notin> set [Get_next_target False, Mark_scanned ''http://h/q'',
                                 Delete_target ''http://h/p?x=2'', Flush_targets]
   \<and> run_ops python_libs [Get_next_target False, Mark_scanned ''http://h/q'',
                            Delete_target ''http://h/p?x=2'', Flush_targets] scan_db
       = Inr (scan_db\<lparr>targets := []\<rparr>)
   \<and> set (fingerprints scan_db) \<subseteq> set (fingerprints (scan_db\<lparr>targets := []\<rparr>))"
proof -
  have ev: "run_ops python_libs [Get_next_target False, Mark_scanned ''http://h/q'',
                            Delete_target ''http://h/p?x=2'', Flush_targets] scan_db
       = Inr (scan_db\<lparr>targets := []\<rparr>)"
    by (simp add: get_next_target_scan_db mark_scanned_ok delete_target_def
        flush_targets_def driver_call_def)
  from fingerprints_kept [OF _ ev] ev show ?thesis by simp
qed

end
